theory Spec2Isabelle
  imports Main "HOL-Library.Sublist"
begin

section \<open>wiki-image-scrape: a model of \<open>scrape_image.py\<close>\<close>

text \<open>
  The script resolves a search term to an image URL in three steps, each one
  blocking HTTP request: \<open>get_wiki_page_id\<close> (search), and the two halves of
  \<open>get_wiki_image_url\<close> (article page, image description page). Nothing in the
  script catches an exception, so every Python exception that can be raised is a
  value of the result type here.
\<close>

subsection \<open>Exceptions\<close>

text \<open>
  The built-in exceptions the script's own expressions raise (a subscript out of
  range, a missing dictionary key or attribute, a subscript or attribute access on
  \<open>None\<close>), and the two families the collaborators raise: \<open>requests\<close> for a
  request that cannot complete, \<open>json\<close> for a body that cannot be decoded. The
  script defines no exception class of its own.
\<close>

datatype pyerror =
    IndexError
  | KeyError
  | TypeError
  | AttributeError
  | RequestException
  | JSONDecodeError

subsection \<open>Strings\<close>

text \<open>
  A \<open>str\<close> is modelled as a list of 8-bit characters, read as the code points
  below 256. \<open>str.lower\<close> on those maps \<open>A\<close>..\<open>Z\<close> and the upper-case letters
  of Latin-1 (\<open>0xC0\<close>..\<open>0xDE\<close> without the multiplication sign \<open>0xD7\<close>) to the
  letter 32 places further, and leaves everything else alone.
\<close>

definition newline :: char where
  "newline = CHR 0x0A"

definition upper_letters :: string where
  "upper_letters = ''ABCDEFGHIJKLMNOPQRSTUVWXYZ'' @
     [CHR 0xC0, CHR 0xC1, CHR 0xC2, CHR 0xC3, CHR 0xC4, CHR 0xC5, CHR 0xC6, CHR 0xC7,
      CHR 0xC8, CHR 0xC9, CHR 0xCA, CHR 0xCB, CHR 0xCC, CHR 0xCD, CHR 0xCE, CHR 0xCF,
      CHR 0xD0, CHR 0xD1, CHR 0xD2, CHR 0xD3, CHR 0xD4, CHR 0xD5, CHR 0xD6,
      CHR 0xD8, CHR 0xD9, CHR 0xDA, CHR 0xDB, CHR 0xDC, CHR 0xDD, CHR 0xDE]"

definition lower_letters :: string where
  "lower_letters = ''abcdefghijklmnopqrstuvwxyz'' @
     [CHR 0xE0, CHR 0xE1, CHR 0xE2, CHR 0xE3, CHR 0xE4, CHR 0xE5, CHR 0xE6, CHR 0xE7,
      CHR 0xE8, CHR 0xE9, CHR 0xEA, CHR 0xEB, CHR 0xEC, CHR 0xED, CHR 0xEE, CHR 0xEF,
      CHR 0xF0, CHR 0xF1, CHR 0xF2, CHR 0xF3, CHR 0xF4, CHR 0xF5, CHR 0xF6,
      CHR 0xF8, CHR 0xF9, CHR 0xFA, CHR 0xFB, CHR 0xFC, CHR 0xFD, CHR 0xFE]"

definition lower_char :: "char \<Rightarrow> char" where
  "lower_char c =
     (case map_of (zip upper_letters lower_letters) c of None \<Rightarrow> c | Some l \<Rightarrow> l)"

definition lower :: "string \<Rightarrow> string" where
  "lower s = map lower_char s"

subsection \<open>Regular expressions of Python's \<open>re\<close>\<close>

text \<open>
  The part of the pattern language the three patterns of the script use:
  a literal character, \<open>.\<close>, \<open>^\<close>, \<open>$\<close>, concatenation, \<open>|\<close>, \<open>*\<close> and the
  negative lookahead \<open>(?!...)\<close>. No flag is passed to \<open>re.search\<close>, so
  \<open>.\<close> matches every character but the newline, \<open>^\<close> matches at the start of
  the string only, and \<open>$\<close> matches at the end of the string and also just before
  a newline that is the last character of the string.
\<close>

datatype regex =
    Eps
  | Lit char
  | AnyChar
  | Bol
  | Eol
  | Cat regex regex
  | Alt regex regex
  | Star regex
  | NegLookahead regex

text \<open>
  A position in the subject is the pair of a flag (is this the start of the string?)
  and the rest of the subject from here on. \<open>rx_ends r p\<close> lists the positions at which
  a match of \<open>r\<close> that starts at \<open>p\<close> can end. The order of the list is not Python's
  order of preference (greedy first); \<open>re.search\<close> is only asked whether a match
  exists. An iteration of \<open>*\<close> that consumes nothing ends the loop, as it does
  in the \<open>re\<close> engine.
\<close>

type_synonym pos = "bool \<times> string"

fun rx_ends :: "regex \<Rightarrow> pos \<Rightarrow> pos list" where
  "rx_ends Eps p = [p]"
| "rx_ends (Lit c) p =
     (case snd p of [] \<Rightarrow> [] | x # xs \<Rightarrow> if x = c then [(False, xs)] else [])"
| "rx_ends AnyChar p =
     (case snd p of [] \<Rightarrow> [] | x # xs \<Rightarrow> if x \<noteq> newline then [(False, xs)] else [])"
| "rx_ends Bol p = (if fst p then [p] else [])"
| "rx_ends Eol p = (if snd p = [] \<or> snd p = [newline] then [p] else [])"
| "rx_ends (Cat r1 r2) p = concat (map (rx_ends r2) (rx_ends r1 p))"
| "rx_ends (Alt r1 r2) p = rx_ends r1 p @ rx_ends r2 p"
| "rx_ends (Star r) p =
     p # concat (map (\<lambda>q. if length (snd q) < length (snd p)
                             then rx_ends (Star r) q else [])
                     (rx_ends r p))"
| "rx_ends (NegLookahead r) p = (if rx_ends r p = [] then [p] else [])"

text \<open>\<open>re.search(pattern, s)\<close>, as a truth value: some match starts somewhere in \<open>s\<close>.\<close>

definition re_search :: "regex \<Rightarrow> string \<Rightarrow> bool" where
  "re_search r s =
     list_ex (\<lambda>i. rx_ends r (i = 0, drop i s) \<noteq> []) [0 ..< Suc (length s)]"

text \<open>A word as a pattern: its characters in sequence.\<close>

fun lits :: "string \<Rightarrow> regex" where
  "lits [] = Eps"
| "lits (c # cs) = Cat (Lit c) (lits cs)"

text \<open>\<open>regex_viewable = "(jpg|jpeg|gif|png)$"\<close>\<close>

definition regex_viewable :: regex where
  "regex_viewable =
     Cat (Alt (lits ''jpg'') (Alt (lits ''jpeg'') (Alt (lits ''gif'') (lits ''png'')))) Eol"

text \<open>\<open>regex_not_viewable = "^((?!svg).)*$"\<close>\<close>

definition regex_not_viewable :: regex where
  "regex_not_viewable =
     Cat Bol (Cat (Star (Cat (NegLookahead (lits ''svg'')) AnyChar)) Eol)"

text \<open>The pattern \<open>"http"\<close> of line 85.\<close>

definition regex_http :: regex where
  "regex_http = lits ''http''"

subsection \<open>The parsed page\<close>

text \<open>
  What \<open>BeautifulSoup(..., "html.parser")\<close> builds: a tree of tags and text nodes.
  A tag has a name, its \<open>class\<close> attribute split at white space into a list (the
  parser does that for \<open>class\<close>; an absent attribute is the empty list here), its
  other attributes as a dictionary from names to strings, and its children in
  document order. The page itself is a tag, named \<open>[document]\<close>, with no attribute.
\<close>

datatype node =
    Element string "string list" "(string \<times> string) list" "node list"
  | Text string

fun tag_name :: "node \<Rightarrow> string option" where
  "tag_name (Element n cs as ks) = Some n"
| "tag_name (Text s) = None"

fun classes :: "node \<Rightarrow> string list" where
  "classes (Element n cs as ks) = cs"
| "classes (Text s) = []"

fun attrs :: "node \<Rightarrow> string \<rightharpoonup> string" where
  "attrs (Element n cs as ks) = map_of as"
| "attrs (Text s) = Map.empty"

text \<open>\<open>tag[key]\<close>: the attribute, or \<open>KeyError\<close>.\<close>

definition getitem :: "node \<Rightarrow> string \<Rightarrow> pyerror + string" where
  "getitem t k = (case attrs t k of None \<Rightarrow> Inl KeyError | Some v \<Rightarrow> Inr v)"

subsection \<open>\<open>viewable_image\<close> (lines 89 to 106)\<close>

text \<open>
  The \<open>and\<close> chain evaluates left to right and stops at the first falsy operand;
  each \<open>tag[...]\<close> is evaluated only when the chain reaches it. The value returned
  is \<open>False\<close>, \<open>None\<close> (a search without match) or \<open>True\<close>; the caller
  \<open>find_all\<close> uses its truth value, which is what the model returns.
\<close>

definition viewable_image :: "node \<Rightarrow> pyerror + bool" where
  "viewable_image t =
     (if tag_name t \<noteq> Some ''img'' then Inr False
      else (case getitem t ''src'' of
        Inl e \<Rightarrow> Inl e
      | Inr src \<Rightarrow>
          (if \<not> re_search regex_not_viewable (lower src) then Inr False
           else if \<not> re_search regex_viewable (lower src) then Inr False
           else (case getitem t ''alt'' of
             Inl e \<Rightarrow> Inl e
           | Inr alt \<Rightarrow> Inr (alt \<noteq> ''dagger'')))))"

text \<open>
  The claim about the predicate, in its own words: an image tag whose source path,
  lower-cased, ends with one of the four extensions and contains \<open>svg\<close> nowhere, and
  whose alternate text is not \<open>dagger\<close>. The conditions are on attributes the tag
  has; a tag that lacks one of them does not satisfy them.
\<close>

definition extensions :: "string list" where
  "extensions = [''jpg'', ''jpeg'', ''gif'', ''png'']"

definition spec_viewable :: "node \<Rightarrow> bool" where
  "spec_viewable t \<longleftrightarrow>
     tag_name t = Some ''img'' \<and>
     (case attrs t ''src'' of
        None \<Rightarrow> False
      | Some src \<Rightarrow>
          list_ex (\<lambda>e. suffix e (lower src)) extensions \<and>
          \<not> sublist ''svg'' (lower src) \<and>
          (case attrs t ''alt'' of None \<Rightarrow> False | Some alt \<Rightarrow> alt \<noteq> ''dagger''))"

subsection \<open>Searching the tree\<close>

text \<open>
  \<open>family t\<close> lists the nodes below \<open>t\<close> in document order (a node before its
  children, siblings left to right), each with its parent; this is the order in
  which \<open>find\<close> and \<open>find_all\<close> visit \<open>t.descendants\<close>.
\<close>

fun family :: "node \<Rightarrow> (node \<times> node) list" where
  "family (Element n cs as ks) =
     concat (map (\<lambda>k. (Element n cs as ks, k) # family k) ks)"
| "family (Text s) = []"

definition descendants :: "node \<Rightarrow> node list" where
  "descendants t = map snd (family t)"

text \<open>
  \<open>t.find(name, {"class": c})\<close>: the first tag below \<open>t\<close> with that name whose
  class list contains \<open>c\<close>, or \<open>None\<close>. \<open>t.find(name)\<close> and \<open>t.findChild(name)\<close>
  (the same method): the first tag below \<open>t\<close> with that name, or \<open>None\<close>.
\<close>

definition find_class :: "string \<Rightarrow> string \<Rightarrow> node \<Rightarrow> node option" where
  "find_class n c t =
     find (\<lambda>d. tag_name d = Some n \<and> c \<in> set (classes d)) (descendants t)"

definition find_name :: "string \<Rightarrow> node \<Rightarrow> node option" where
  "find_name n t = find (\<lambda>d. tag_name d = Some n) (descendants t)"

text \<open>
  \<open>find_all(f)\<close> with a function \<open>f\<close>: \<open>f\<close> is called on every tag below the
  page, in document order, and the tags on which it is truthy are collected. Text
  nodes are not passed to \<open>f\<close>. The whole list is built before anything is taken
  from it, so an exception raised by \<open>f\<close> on any tag ends the call. The model
  keeps each tag's parent for the \<open>.parent\<close> of line 75.
\<close>

fun find_all :: "(node \<Rightarrow> pyerror + bool) \<Rightarrow> (node \<times> node) list
    \<Rightarrow> pyerror + (node \<times> node) list" where
  "find_all f [] = Inr []"
| "find_all f ((parent, Text s) # rest) = find_all f rest"
| "find_all f ((parent, Element n cs as ks) # rest) =
     (case f (Element n cs as ks) of
        Inl e \<Rightarrow> Inl e
      | Inr b \<Rightarrow>
          (case find_all f rest of
             Inl e \<Rightarrow> Inl e
           | Inr found \<Rightarrow>
               Inr (if b then (parent, Element n cs as ks) # found else found)))"

subsection \<open>\<open>get_wiki_image_url\<close>, lines 67 to 75: the link of the primary image\<close>

text \<open>
  The result records which branch of the \<open>if\<close> of line 72 produced the link. A
  \<open>Tag\<close> is always truthy, so the test is whether \<open>image_element\<close> is \<open>None\<close>.
  \<open>None.find\<close> raises \<open>AttributeError\<close>, \<open>None["href"]\<close> raises \<open>TypeError\<close>, a
  list without element \<open>[0]\<close> raises \<open>IndexError\<close>.
\<close>

datatype branch = InfoboxCell | PageScan

definition locate_primary_image :: "node \<Rightarrow> pyerror + (branch \<times> string)" where
  "locate_primary_image page_content =
     (case find_class ''table'' ''infobox'' page_content of
        None \<Rightarrow> Inl AttributeError
      | Some infobox \<Rightarrow>
          (case find_class ''td'' ''infobox-image'' infobox of
             Some image_element \<Rightarrow>
               (case find_name ''a'' image_element of
                  None \<Rightarrow> Inl TypeError
                | Some a \<Rightarrow>
                    (case getitem a ''href'' of
                       Inl e \<Rightarrow> Inl e
                     | Inr image_url \<Rightarrow> Inr (InfoboxCell, image_url)))
           | None \<Rightarrow>
               (case find_all viewable_image (family page_content) of
                  Inl e \<Rightarrow> Inl e
                | Inr [] \<Rightarrow> Inl IndexError
                | Inr ((parent, img) # others) \<Rightarrow>
                    (case getitem parent ''href'' of
                       Inl e \<Rightarrow> Inl e
                     | Inr image_url \<Rightarrow> Inr (PageScan, image_url)))))"

subsection \<open>\<open>get_wiki_image_url\<close>, lines 83 to 87: the URL on the description page\<close>

definition extract_final_url :: "node \<Rightarrow> pyerror + string" where
  "extract_final_url image_page_content =
     (case find_class ''div'' ''fullImageLink'' image_page_content of
        None \<Rightarrow> Inl AttributeError
      | Some image_parent \<Rightarrow>
          (case find_name ''a'' image_parent of
             None \<Rightarrow> Inl AttributeError
           | Some a \<Rightarrow>
               (case find_name ''img'' a of
                  None \<Rightarrow> Inl TypeError
                | Some img \<Rightarrow>
                    (case getitem img ''src'' of
                       Inl e \<Rightarrow> Inl e
                     | Inr image_url \<Rightarrow>
                         Inr (if \<not> re_search regex_http image_url
                              then ''https:'' @ image_url else image_url)))))"

subsection \<open>The decoded search response\<close>

text \<open>
  What \<open>search_response.json()\<close> returns: \<open>None\<close>, a truth value, an integer, a
  string, a list or a dictionary with string keys (floating-point numbers are left
  out; the response of the search API has none on the path the script reads).
\<close>

datatype json =
    JNull
  | JBool bool
  | JInt int
  | JString string
  | JList "json list"
  | JDict "(string \<times> json) list"

text \<open>\<open>x[k]\<close> for a string \<open>k\<close>: only a dictionary can be subscripted by a string.\<close>

fun getitem_key :: "json \<Rightarrow> string \<Rightarrow> pyerror + json" where
  "getitem_key (JDict kvs) k =
     (case map_of kvs k of None \<Rightarrow> Inl KeyError | Some v \<Rightarrow> Inr v)"
| "getitem_key JNull k = Inl TypeError"
| "getitem_key (JBool b) k = Inl TypeError"
| "getitem_key (JInt i) k = Inl TypeError"
| "getitem_key (JString s) k = Inl TypeError"
| "getitem_key (JList xs) k = Inl TypeError"

text \<open>
  \<open>x[0]\<close>: the first element of a list or the first character of a string, an
  \<open>IndexError\<close> when it is empty; a dictionary with string keys has no key \<open>0\<close>.
\<close>

fun getitem_0 :: "json \<Rightarrow> pyerror + json" where
  "getitem_0 (JList []) = Inl IndexError"
| "getitem_0 (JList (x # xs)) = Inr x"
| "getitem_0 (JString []) = Inl IndexError"
| "getitem_0 (JString (c # cs)) = Inr (JString [c])"
| "getitem_0 (JDict kvs) = Inl KeyError"
| "getitem_0 JNull = Inl TypeError"
| "getitem_0 (JBool b) = Inl TypeError"
| "getitem_0 (JInt i) = Inl TypeError"

subsection \<open>The network\<close>

text \<open>
  The three requests of a run, by what they ask for: the search API with
  \<open>srsearch\<close> set to the term, the article page \<open>base_url + "?curid=" + str(page_id)\<close>,
  and the description page \<open>base_url + image_url\<close>. The web is a parameter: for
  each request, the exception raised by \<open>get\<close> or by the decoding of its body,
  or else the decoded response or parsed page.
\<close>

datatype request = Search string | Article json | ImagePage string

record web =
  search :: "string \<Rightarrow> pyerror + json"
  article :: "json \<Rightarrow> pyerror + node"
  image_page :: "string \<Rightarrow> pyerror + node"

subsection \<open>\<open>get_wiki_page_id\<close> (lines 17 to 44)\<close>

text \<open>Each function returns the requests it sent along with its result.\<close>

definition get_wiki_page_id :: "web \<Rightarrow> string \<Rightarrow> request list \<times> (pyerror + json)" where
  "get_wiki_page_id w search_term =
     ([Search search_term],
      (case search w search_term of
         Inl e \<Rightarrow> Inl e
       | Inr response \<Rightarrow>
           (case getitem_key response ''query'' of
              Inl e \<Rightarrow> Inl e
            | Inr query \<Rightarrow>
                (case getitem_key query ''search'' of
                   Inl e \<Rightarrow> Inl e
                 | Inr results \<Rightarrow>
                     (case getitem_0 results of
                        Inl e \<Rightarrow> Inl e
                      | Inr first \<Rightarrow> getitem_key first ''pageid'')))))"

subsection \<open>\<open>get_wiki_image_url\<close> (lines 46 to 87)\<close>

definition get_wiki_image_url :: "web \<Rightarrow> json \<Rightarrow> request list \<times> (pyerror + string)" where
  "get_wiki_image_url w page_id =
     (case article w page_id of
        Inl e \<Rightarrow> ([Article page_id], Inl e)
      | Inr page_content \<Rightarrow>
          (case locate_primary_image page_content of
             Inl e \<Rightarrow> ([Article page_id], Inl e)
           | Inr (taken, image_url) \<Rightarrow>
               ([Article page_id, ImagePage image_url],
                (case image_page w image_url of
                   Inl e \<Rightarrow> Inl e
                 | Inr image_page_content \<Rightarrow> extract_final_url image_page_content))))"

subsection \<open>\<open>main\<close> (lines 110 to 116)\<close>

text \<open>
  A run ends with what it printed, the requests it sent, and its exit status: \<open>0\<close>
  when \<open>main\<close> returns, \<open>1\<close> when an exception leaves it (the interpreter prints
  the traceback on the error stream, which is not modelled). \<open>argv[1]\<close> raises
  \<open>IndexError\<close> when the script is run without argument.
\<close>

record outcome =
  exit_status :: nat
  stdout :: "string list"
  requests :: "request list"

definition main :: "web \<Rightarrow> string list \<Rightarrow> outcome" where
  "main w argv =
     (case argv of
        script # search_term # extra \<Rightarrow>
          (case get_wiki_page_id w search_term of
             (sent, Inl e) \<Rightarrow> \<lparr>exit_status = 1, stdout = [], requests = sent\<rparr>
           | (sent, Inr page_id) \<Rightarrow>
               (case get_wiki_image_url w page_id of
                  (sent', Inl e) \<Rightarrow>
                    \<lparr>exit_status = 1, stdout = [], requests = sent @ sent'\<rparr>
                | (sent', Inr image_url) \<Rightarrow>
                    \<lparr>exit_status = 0, stdout = [image_url], requests = sent @ sent'\<rparr>))
      | _ \<Rightarrow> \<lparr>exit_status = 1, stdout = [], requests = []\<rparr>)"

text \<open>
  All three stages succeed on a run: the resolver returns an identifier, the locator
  a link on the article page of that identifier, the extractor a URL on the
  description page of that link.
\<close>

definition all_stages_succeed :: "web \<Rightarrow> string list \<Rightarrow> string \<Rightarrow> bool" where
  "all_stages_succeed w argv url \<longleftrightarrow>
     (\<exists>script search_term extra page_id page_content taken image_url image_page_content.
        argv = script # search_term # extra \<and>
        snd (get_wiki_page_id w search_term) = Inr page_id \<and>
        article w page_id = Inr page_content \<and>
        locate_primary_image page_content = Inr (taken, image_url) \<and>
        image_page w image_url = Inr image_page_content \<and>
        extract_final_url image_page_content = Inr url)"

subsection \<open>Closed forms used in the proofs\<close>

text \<open>
  What the pattern \<open>^((?!w).)*$\<close> accepts, read off character by character: every
  character is not a newline and does not start an occurrence of \<open>w\<close>, up to the
  end of the string or to a newline that is its last character.
\<close>

fun line_without :: "string \<Rightarrow> string \<Rightarrow> bool" where
  "line_without w [] = True"
| "line_without w (x # xs) =
     (x # xs = [newline] \<or> (x \<noteq> newline \<and> \<not> prefix w (x # xs) \<and> line_without w xs))"

text \<open>Where \<open>$\<close> matches.\<close>

definition at_eol :: "pos \<Rightarrow> bool" where
  "at_eol q \<longleftrightarrow> snd q = [] \<or> snd q = [newline]"

subsection \<open>Example pages and responses\<close>

text \<open>An article page without infobox table: one linked image and nothing else.\<close>

definition page_no_infobox :: node where
  "page_no_infobox =
     Element ''[document]'' [] []
       [Element ''a'' [] [(''href'', ''/wiki/File:Y.png'')]
          [Element ''img'' [] [(''src'', ''y.png''), (''alt'', ''y'')] []]]"

text \<open>An article page whose infobox has no image cell, and which has no image at all.\<close>

definition page_empty_infobox :: node where
  "page_empty_infobox =
     Element ''[document]'' [] []
       [Element ''table'' [''infobox''] [] [Element ''td'' [] [] [Text ''no image'']]]"

text \<open>An article page whose infobox has no image cell, with three linked images.\<close>

definition page_infobox_no_cell :: node where
  "page_infobox_no_cell =
     Element ''[document]'' [] []
       [Element ''table'' [''infobox''] [] [Element ''td'' [] [] [Text ''no image'']],
        Element ''a'' [] [(''href'', ''/wiki/File:Flag.svg'')]
          [Element ''img'' [] [(''src'', ''flag.svg.png''), (''alt'', ''flag'')] []],
        Element ''a'' [] [(''href'', ''/wiki/File:First.jpg'')]
          [Element ''img'' [] [(''src'', ''first.jpg''), (''alt'', ''first'')] []],
        Element ''a'' [] [(''href'', ''/wiki/File:Second.png'')]
          [Element ''img'' [] [(''src'', ''second.png''), (''alt'', ''second'')] []]]"

text \<open>An infobox table with an image cell that links to \<open>/wiki/File:X.jpg\<close>.\<close>

definition link_x :: node where
  "link_x =
     Element ''a'' [] [(''href'', ''/wiki/File:X.jpg'')]
       [Element ''img'' [] [(''src'', ''x.jpg''), (''alt'', ''x'')] []]"

definition cell_x :: node where
  "cell_x = Element ''td'' [''infobox-image''] [] [link_x]"

definition infobox_x :: node where
  "infobox_x = Element ''table'' [''infobox'', ''vcard''] [] [cell_x]"

text \<open>An article page with that infobox.\<close>

definition page_infobox :: node where
  "page_infobox = Element ''[document]'' [] [] [infobox_x]"

text \<open>
  An article page with a linked image, then an infobox table without image cell,
  then the infobox table above.
\<close>

definition page_two_infoboxes :: node where
  "page_two_infoboxes =
     Element ''[document]'' [] []
       [Element ''a'' [] [(''href'', ''/wiki/File:Y.png'')]
          [Element ''img'' [] [(''src'', ''y.png''), (''alt'', ''y'')] []],
        Element ''table'' [''infobox''] [] [],
        infobox_x]"

text \<open>
  An article page whose infobox has no image cell and whose only images are a
  footnote glyph and a vector graphic.
\<close>

definition page_only_glyphs :: node where
  "page_only_glyphs =
     Element ''[document]'' [] []
       [Element ''table'' [''infobox''] [] [],
        Element ''a'' [] [(''href'', ''/wiki/File:Dagger.png'')]
          [Element ''img'' [] [(''src'', ''dagger.png''), (''alt'', ''dagger'')] []],
        Element ''img'' [] [(''src'', ''map.svg''), (''alt'', ''map'')] []]"

text \<open>A description page whose full image has a protocol-relative source.\<close>

definition file_page :: node where
  "file_page =
     Element ''[document]'' [] []
       [Element ''div'' [''fullImageLink''] [(''id'', ''file'')]
          [Element ''a'' [] [(''href'', ''//upload.example/foo.png'')]
             [Element ''img'' []
                [(''src'', ''//upload.example/foo.png''), (''alt'', ''File:Foo.png'')] []]]]"

text \<open>
  A description page without the container, one whose container has no link, and one
  whose container has a link without image.
\<close>

definition file_page_no_container :: node where
  "file_page_no_container =
     Element ''[document]'' [] [] [Element ''div'' [''mw-content''] [] [Text ''missing'']]"

definition file_page_no_link :: node where
  "file_page_no_link =
     Element ''[document]'' [] [] [Element ''div'' [''fullImageLink''] [] [Text ''foo'']]"

definition file_page_no_image :: node where
  "file_page_no_image =
     Element ''[document]'' [] []
       [Element ''div'' [''fullImageLink''] []
          [Element ''a'' [] [(''href'', ''//upload.example/foo.png'')] [Text ''foo'']]]"

text \<open>A search response with two results, and one with none.\<close>

definition response_two_results :: json where
  "response_two_results =
     JDict [(''batchcomplete'', JString []),
            (''query'', JDict
               [(''searchinfo'', JDict [(''totalhits'', JInt 2)]),
                (''search'', JList
                   [JDict [(''title'', JString ''Zebra''), (''pageid'', JInt 42)],
                    JDict [(''title'', JString ''Aardvark''), (''pageid'', JInt 7)]])])]"

definition response_no_results :: json where
  "response_no_results =
     JDict [(''batchcomplete'', JString []),
            (''query'', JDict
               [(''searchinfo'', JDict [(''totalhits'', JInt 0)]),
                (''search'', JList [])])]"

text \<open>A web on which every stage succeeds, and one whose search finds nothing.\<close>

definition web_ok :: web where
  "web_ok =
     \<lparr>search = (\<lambda>t. Inr response_two_results),
      article = (\<lambda>p. Inr page_infobox),
      image_page = (\<lambda>r. Inr file_page)\<rparr>"

definition web_empty_search :: web where
  "web_empty_search =
     \<lparr>search = (\<lambda>t. Inr response_no_results),
      article = (\<lambda>p. Inr page_infobox),
      image_page = (\<lambda>r. Inr file_page)\<rparr>"

section \<open>What the patterns match\<close>

declare rx_ends.simps(8) [simp del]

lemma rx_ends_lits:
  "rx_ends (lits w) (b, s) =
     (if prefix w s then [(b \<and> w = [], drop (length w) s)] else [])"
proof (induction w arbitrary: b s)
  case Nil
  show ?case by simp
next
  case (Cons c cs)
  show ?case
  proof (cases s)
    case Nil
    then show ?thesis by simp
  next
    case (Cons x xs)
    then show ?thesis using Cons.IH [of False xs] by simp
  qed
qed

lemma drop_eq_iff_suffix:
  "(\<exists>i \<le> length s. drop i s = w) \<longleftrightarrow> suffix w s"
proof
  assume "\<exists>i \<le> length s. drop i s = w"
  then show "suffix w s" using suffix_drop by blast
next
  assume "suffix w s"
  then obtain zs where "s = zs @ w" by (auto simp: suffix_def)
  then have "length zs \<le> length s \<and> drop (length zs) s = w" by simp
  then show "\<exists>i \<le> length s. drop i s = w" by blast
qed

lemma prefix_drop_iff_sublist:
  "(\<exists>i \<le> length s. prefix w (drop i s)) \<longleftrightarrow> sublist w s"
proof
  assume "\<exists>i \<le> length s. prefix w (drop i s)"
  then obtain i where "prefix w (drop i s)" by blast
  then show "sublist w s"
    using sublist_altdef' suffix_drop by blast
next
  assume "sublist w s"
  then obtain ps ss where s: "s = ps @ w @ ss" by (auto simp: sublist_def)
  then have "length ps \<le> length s \<and> prefix w (drop (length ps) s)" by simp
  then show "\<exists>i \<le> length s. prefix w (drop i s)" by blast
qed

lemma re_search_iff:
  "re_search r s \<longleftrightarrow> (\<exists>i \<le> length s. rx_ends r (i = 0, drop i s) \<noteq> [])"
proof -
  have "set [0 ..< Suc (length s)] = {i. i \<le> length s}" by auto
  then show ?thesis unfolding re_search_def list_ex_iff by blast
qed

lemma re_search_lits: "re_search (lits w) s \<longleftrightarrow> sublist w s"
proof -
  have "rx_ends (lits w) (b, t) \<noteq> [] \<longleftrightarrow> prefix w t" for b t
    by (simp add: rx_ends_lits)
  then show ?thesis unfolding re_search_iff by (simp only: prefix_drop_iff_sublist)
qed

lemma prefix_drop_end:
  "prefix e t \<and> (drop (length e) t = [] \<or> drop (length e) t = [c]) \<longleftrightarrow> t = e \<or> t = e @ [c]"
  by (auto simp: prefix_def)

lemma rx_ends_viewable:
  "rx_ends regex_viewable (b, t) \<noteq> [] \<longleftrightarrow>
     (\<exists>e \<in> set extensions. t = e \<or> t = e @ [newline])"
proof -
  have "rx_ends regex_viewable (b, t) \<noteq> [] \<longleftrightarrow>
     (\<exists>e \<in> set extensions. prefix e t \<and>
        (drop (length e) t = [] \<or> drop (length e) t = [newline]))"
    unfolding regex_viewable_def extensions_def
    by (simp only: rx_ends.simps rx_ends_lits) (simp split: if_splits)
  then show ?thesis by (simp only: prefix_drop_end)
qed

lemma re_search_viewable:
  "re_search regex_viewable s \<longleftrightarrow>
     (\<exists>e \<in> set extensions. suffix e s \<or> suffix (e @ [newline]) s)"
proof -
  have "re_search regex_viewable s \<longleftrightarrow>
    (\<exists>e \<in> set extensions. (\<exists>i \<le> length s. drop i s = e) \<or> (\<exists>i \<le> length s. drop i s = e @ [newline]))"
    unfolding re_search_iff rx_ends_viewable by blast
  then show ?thesis by (simp only: drop_eq_iff_suffix)
qed


declare lits.simps [simp del]

lemma rx_ends_Cat_Eol:
  "rx_ends (Cat r Eol) p \<noteq> [] \<longleftrightarrow> list_ex at_eol (rx_ends r p)"
  by (induction "rx_ends r p") (auto simp: at_eol_def list_ex_iff)

lemma rx_ends_tempered:
  "rx_ends (Cat (NegLookahead (lits w)) AnyChar) (b, s) =
     (case s of [] \<Rightarrow> []
      | x # xs \<Rightarrow> if \<not> prefix w s \<and> x \<noteq> newline then [(False, xs)] else [])"
  by (simp add: rx_ends_lits split: list.splits)

lemma rx_ends_star_tempered_Nil:
  "rx_ends (Star (Cat (NegLookahead (lits w)) AnyChar)) (b, []) = [(b, [])]"
  by (subst rx_ends.simps(8)) (simp only: rx_ends_tempered, simp)

lemma rx_ends_star_tempered_Cons:
  "rx_ends (Star (Cat (NegLookahead (lits w)) AnyChar)) (b, x # xs) =
     (b, x # xs) #
     (if \<not> prefix w (x # xs) \<and> x \<noteq> newline
      then rx_ends (Star (Cat (NegLookahead (lits w)) AnyChar)) (False, xs) else [])"
  by (subst rx_ends.simps(8)) (simp only: rx_ends_tempered, simp)

lemma rx_ends_star_eol:
  "list_ex at_eol (rx_ends (Star (Cat (NegLookahead (lits w)) AnyChar)) (b, s))
     \<longleftrightarrow> line_without w s"
proof (induction s arbitrary: b)
  case Nil
  show ?case by (simp add: rx_ends_star_tempered_Nil at_eol_def)
next
  case (Cons x xs)
  have here: "at_eol (b, x # xs) \<longleftrightarrow> x # xs = [newline]"
    by (simp add: at_eol_def)
  show ?case
    by (simp add: rx_ends_star_tempered_Cons here Cons.IH)
qed

lemma rx_ends_not_viewable:
  "rx_ends regex_not_viewable (b, t) \<noteq> [] \<longleftrightarrow> b \<and> line_without ''svg'' t"
proof (cases b)
  case True
  then have "rx_ends regex_not_viewable (b, t) =
      rx_ends (Cat (Star (Cat (NegLookahead (lits ''svg'')) AnyChar)) Eol) (b, t)"
    unfolding regex_not_viewable_def by simp
  then show ?thesis
    using True by (simp only: rx_ends_Cat_Eol rx_ends_star_eol) simp
next
  case False
  then show ?thesis unfolding regex_not_viewable_def by simp
qed

lemma re_search_not_viewable:
  "re_search regex_not_viewable s \<longleftrightarrow> line_without ''svg'' s"
proof -
  have "re_search regex_not_viewable s \<longleftrightarrow>
      (\<exists>i \<le> length s. i = 0 \<and> line_without ''svg'' (drop i s))"
    unfolding re_search_iff rx_ends_not_viewable by simp
  then show ?thesis by simp
qed

lemma line_without_no_newline:
  "newline \<notin> set s \<Longrightarrow> w \<noteq> [] \<Longrightarrow> line_without w s \<longleftrightarrow> \<not> sublist w s"
  by (induction s) (auto simp: sublist_Cons_right)


lemmas eval_lower = lower_def lower_char_def upper_letters_def lower_letters_def

lemma lower_char_newline: "lower_char c = newline \<longleftrightarrow> c = newline"
proof
  assume c: "c = newline"
  show "lower_char c = newline"
    unfolding c by (simp add: lower_char_def upper_letters_def lower_letters_def newline_def)
next
  assume l: "lower_char c = newline"
  show "c = newline"
  proof (cases "map_of (zip upper_letters lower_letters) c")
    case None
    then show ?thesis using l by (simp add: lower_char_def)
  next
    case (Some x)
    then have "x \<in> set lower_letters"
      by (meson map_of_SomeD set_zip_rightD)
    moreover have "newline \<notin> set lower_letters"
      by (simp add: lower_letters_def newline_def)
    ultimately show ?thesis using l Some by (auto simp: lower_char_def)
  qed
qed

lemma lower_newline: "newline \<in> set (lower s) \<longleftrightarrow> newline \<in> set s"
proof (induction s)
  case Nil
  show ?case by (simp add: lower_def)
next
  case (Cons c cs)
  have "newline \<in> set (lower (c # cs)) \<longleftrightarrow>
      lower_char c = newline \<or> newline \<in> set (lower cs)"
    by (auto simp: lower_def)
  then show ?case using Cons.IH by (auto simp: lower_char_newline)
qed

lemma suffix_snoc_newline:
  "newline \<notin> set s \<Longrightarrow> \<not> suffix (e @ [newline]) s"
  by (auto simp: suffix_def)

lemma re_search_viewable_no_newline:
  "newline \<notin> set s \<Longrightarrow>
     re_search regex_viewable s \<longleftrightarrow> list_ex (\<lambda>e. suffix e s) extensions"
  by (simp add: re_search_viewable suffix_snoc_newline list_ex_iff)

lemma re_search_not_viewable_no_newline:
  "newline \<notin> set s \<Longrightarrow> re_search regex_not_viewable s \<longleftrightarrow> \<not> sublist ''svg'' s"
  by (simp add: re_search_not_viewable line_without_no_newline)

section \<open>The viewable-image predicate\<close>

text \<open>
  Claim C1, as stated: \<open>viewable_image\<close> is true exactly on the image tags whose
  source path ends, whatever the case, with \<open>jpg\<close>, \<open>jpeg\<close>, \<open>gif\<close> or \<open>png\<close>,
  contains \<open>svg\<close> nowhere, and whose alternate text is not \<open>dagger\<close>.

  It fails on a source path with a line break. \<open>$\<close> also matches before a final
  newline, so \<open>a.jpg\<close> followed by a newline is accepted although it does not end
  with an extension; and \<open>.\<close> does not match a newline, so \<open>a\<close>, newline, \<open>b.jpg\<close>
  is rejected by \<open>^((?!svg).)*$\<close> although it contains no \<open>svg\<close> and ends with
  \<open>jpg\<close>.
\<close>

theorem viewable_image_newline_counterexample:
  "viewable_image
     (Element ''img'' [] [(''src'', ''a.jpg'' @ [newline]), (''alt'', ''foo'')] []) = Inr True \<and>
   \<not> spec_viewable
     (Element ''img'' [] [(''src'', ''a.jpg'' @ [newline]), (''alt'', ''foo'')] []) \<and>
   viewable_image
     (Element ''img'' [] [(''src'', ''a'' @ [newline] @ ''b.jpg''), (''alt'', ''foo'')] []) = Inr False \<and>
   spec_viewable
     (Element ''img'' [] [(''src'', ''a'' @ [newline] @ ''b.jpg''), (''alt'', ''foo'')] [])"
  by (simp add: viewable_image_def spec_viewable_def getitem_def re_search_viewable
      re_search_not_viewable extensions_def eval_lower newline_def suffix_to_prefix
      sublist_Cons_right)

text \<open>
  Claim C1, amended: on every tag whose source path contains no newline,
  \<open>viewable_image\<close> is true exactly when the tag is an image tag, its source path
  ends, whatever the case, with \<open>jpg\<close>, \<open>jpeg\<close>, \<open>gif\<close> or \<open>png\<close> and contains
  \<open>svg\<close> nowhere, and its alternate text is not \<open>dagger\<close>.
\<close>

theorem viewable_image_iff_spec:
  assumes "\<forall>src. attrs t ''src'' = Some src \<longrightarrow> newline \<notin> set src"
  shows "viewable_image t = Inr True \<longleftrightarrow> spec_viewable t"
proof (cases "attrs t ''src''")
  case None
  then show ?thesis by (simp add: viewable_image_def spec_viewable_def getitem_def)
next
  case (Some src)
  with assms have "newline \<notin> set (lower src)" by (simp add: lower_newline)
  then have nv: "re_search regex_not_viewable (lower src) \<longleftrightarrow> \<not> sublist ''svg'' (lower src)"
    and v: "re_search regex_viewable (lower src) \<longleftrightarrow>
              list_ex (\<lambda>e. suffix e (lower src)) extensions"
    by (simp_all add: re_search_viewable_no_newline re_search_not_viewable_no_newline)
  show ?thesis
    using nv v
    by (auto simp: viewable_image_def spec_viewable_def getitem_def Some split: option.splits)
qed

theorem viewable_image_iff_spec_witness:
  "newline \<notin> set ''a.JPG'' \<and>
   viewable_image (Element ''img'' [] [(''src'', ''a.JPG''), (''alt'', ''foo'')] []) = Inr True \<and>
   spec_viewable (Element ''img'' [] [(''src'', ''a.JPG''), (''alt'', ''foo'')] [])"
proof -
  have h: "\<forall>src. attrs (Element ''img'' [] [(''src'', ''a.JPG''), (''alt'', ''foo'')] []) ''src''
        = Some src \<longrightarrow> newline \<notin> set src"
    by (simp add: newline_def)
  have s: "spec_viewable (Element ''img'' [] [(''src'', ''a.JPG''), (''alt'', ''foo'')] [])"
    by (simp add: spec_viewable_def extensions_def eval_lower suffix_to_prefix sublist_Cons_right)
  have n: "newline \<notin> set ''a.JPG''"
    by (simp add: newline_def)
  show ?thesis using n s viewable_image_iff_spec [OF h] by blast
qed

text \<open>
  The instances the claim names, on the code: \<open>photo.JPG\<close> with alternate text
  \<open>foo\<close> is accepted; \<open>photo.svg\<close> and \<open>photo.svg.png\<close> are rejected; the alternate
  text \<open>dagger\<close> never gives \<open>True\<close>.
\<close>

lemma viewable_image_examples:
  "viewable_image (Element ''img'' [] [(''src'', ''photo.JPG''), (''alt'', ''foo'')] []) = Inr True"
  "viewable_image (Element ''img'' [] [(''src'', ''photo.svg''), (''alt'', ''foo'')] []) = Inr False"
  "viewable_image (Element ''img'' [] [(''src'', ''photo.svg.png''), (''alt'', ''foo'')] []) = Inr False"
  by (simp_all add: viewable_image_def getitem_def re_search_viewable
      re_search_not_viewable extensions_def eval_lower newline_def suffix_to_prefix)

lemma viewable_image_dagger:
  "attrs t ''alt'' = Some ''dagger'' \<Longrightarrow> viewable_image t \<noteq> Inr True"
  by (auto simp: viewable_image_def getitem_def split: option.splits)

text \<open>
  Claim C10: the predicate subscripts the tag without checking that the attribute
  is there. An image tag without \<open>src\<close>, and an image tag whose \<open>src\<close> passes both
  searches but which has no \<open>alt\<close>, make it raise \<open>KeyError\<close>; it does not
  return \<open>False\<close>.
\<close>

theorem viewable_image_missing_attribute:
  assumes "tag_name t = Some ''img''"
    and "attrs t ''src'' = None \<or>
         (\<exists>src. attrs t ''src'' = Some src \<and>
            re_search regex_not_viewable (lower src) \<and>
            re_search regex_viewable (lower src) \<and>
            attrs t ''alt'' = None)"
  shows "viewable_image t = Inl KeyError"
  using assms by (auto simp: viewable_image_def getitem_def)

theorem viewable_image_missing_attribute_witness:
  "viewable_image (Element ''img'' [] [(''alt'', ''foo'')] []) = Inl KeyError \<and>
   viewable_image (Element ''img'' [] [(''src'', ''a.png'')] []) = Inl KeyError"
proof -
  have a: "viewable_image (Element ''img'' [] [(''alt'', ''foo'')] []) = Inl KeyError"
    using viewable_image_missing_attribute [of "Element ''img'' [] [(''alt'', ''foo'')] []"]
    by simp
  have "re_search regex_not_viewable (lower ''a.png'') \<and>
        re_search regex_viewable (lower ''a.png'')"
    by (simp add: re_search_viewable re_search_not_viewable extensions_def eval_lower
        newline_def suffix_to_prefix)
  then have b: "viewable_image (Element ''img'' [] [(''src'', ''a.png'')] []) = Inl KeyError"
    using viewable_image_missing_attribute [of "Element ''img'' [] [(''src'', ''a.png'')] []"]
    by simp
  show ?thesis using a b by simp
qed

section \<open>Searching the tree\<close>

lemmas eval_find = find_class_def find_name_def descendants_def getitem_def

lemmas eval_viewable = viewable_image_def re_search_viewable re_search_not_viewable
  extensions_def eval_lower newline_def suffix_to_prefix

lemma descendants_Element:
  "descendants (Element n cs as ks) = concat (map (\<lambda>k. k # descendants k) ks)"
  by (simp add: descendants_def map_concat comp_def)

text \<open>What lies below a node that lies below \<open>c\<close> lies below \<open>c\<close>.\<close>

lemma descendants_below:
  "a \<in> set (descendants c) \<Longrightarrow> set (descendants a) \<subseteq> set (descendants c)"
proof (induction c)
  case (Element n cs as ks)
  from Element.prems obtain k where k: "k \<in> set ks" "a = k \<or> a \<in> set (descendants k)"
    by (auto simp: descendants_Element)
  have "set (descendants a) \<subseteq> set (descendants k)"
    using k Element.IH by blast
  moreover have "set (descendants k) \<subseteq> set (descendants (Element n cs as ks))"
    using k(1) by (auto simp: descendants_Element)
  ultimately show ?case by blast
next
  case (Text s)
  then show ?case by (simp add: descendants_def)
qed

lemma find_name_None_below:
  assumes "find_name n c = None" and "a \<in> set (descendants c)"
  shows "find_name n a = None"
  using assms descendants_below [OF assms(2)]
  unfolding find_name_def find_None_iff by blast

lemma find_name_Some_in:
  "find_name n c = Some a \<Longrightarrow> a \<in> set (descendants c) \<and> tag_name a = Some n"
  unfolding find_name_def by (auto simp: find_Some_iff)

lemma find_class_Some_in:
  "find_class n k c = Some a \<Longrightarrow>
     a \<in> set (descendants c) \<and> tag_name a = Some n \<and> k \<in> set (classes a)"
  unfolding find_class_def by (auto simp: find_Some_iff)

text \<open>
  \<open>find\<close> returns the first match in document order: the list of the nodes below
  splits into nodes that do not match, the result, and the rest.
\<close>

lemma find_first_split:
  "find P xs = Some x \<longleftrightarrow>
     (\<exists>before after. xs = before @ x # after \<and> P x \<and> (\<forall>y \<in> set before. \<not> P y))"
proof (induction xs)
  case Nil
  show ?case by simp
next
  case (Cons z zs)
  show ?case
  proof (cases "P z")
    case True
    have "(\<exists>before after. z # zs = before @ x # after \<and> P x \<and> (\<forall>y \<in> set before. \<not> P y))
        \<longleftrightarrow> z = x"
    proof
      assume "\<exists>before after. z # zs = before @ x # after \<and> P x \<and> (\<forall>y \<in> set before. \<not> P y)"
      then obtain before after where s: "z # zs = before @ x # after"
        and b: "\<forall>y \<in> set before. \<not> P y" by blast
      show "z = x"
      proof (cases before)
        case Nil
        then show ?thesis using s by simp
      next
        case (Cons b bs)
        then have "b = z" using s by simp
        then show ?thesis using b Cons True by simp
      qed
    next
      assume "z = x"
      then have "z # zs = [] @ x # zs \<and> P x \<and> (\<forall>y \<in> set []. \<not> P y)"
        using True by simp
      then show "\<exists>before after. z # zs = before @ x # after \<and> P x \<and> (\<forall>y \<in> set before. \<not> P y)"
        by blast
    qed
    then show ?thesis using True by simp
  next
    case False
    have "(\<exists>before after. z # zs = before @ x # after \<and> P x \<and> (\<forall>y \<in> set before. \<not> P y))
        \<longleftrightarrow> (\<exists>before after. zs = before @ x # after \<and> P x \<and> (\<forall>y \<in> set before. \<not> P y))"
    proof
      assume "\<exists>before after. z # zs = before @ x # after \<and> P x \<and> (\<forall>y \<in> set before. \<not> P y)"
      then obtain before after where s: "z # zs = before @ x # after"
        and x: "P x" and b: "\<forall>y \<in> set before. \<not> P y" by blast
      from s x False obtain bs where bs: "before = z # bs"
        by (cases before) auto
      then have "zs = bs @ x # after \<and> P x \<and> (\<forall>y \<in> set bs. \<not> P y)"
        using s x b by simp
      then show "\<exists>before after. zs = before @ x # after \<and> P x \<and> (\<forall>y \<in> set before. \<not> P y)"
        by blast
    next
      assume "\<exists>before after. zs = before @ x # after \<and> P x \<and> (\<forall>y \<in> set before. \<not> P y)"
      then obtain before after where "zs = before @ x # after"
        and "P x" and "\<forall>y \<in> set before. \<not> P y" by blast
      then have "z # zs = (z # before) @ x # after \<and> P x \<and> (\<forall>y \<in> set (z # before). \<not> P y)"
        using False by simp
      then show "\<exists>before after. z # zs = before @ x # after \<and> P x \<and> (\<forall>y \<in> set before. \<not> P y)"
        by blast
    qed
    then show ?thesis using False Cons.IH by simp
  qed
qed

lemma find_class_first:
  "find_class n c t = Some d \<longleftrightarrow>
     (\<exists>before after. descendants t = before @ d # after \<and>
        tag_name d = Some n \<and> c \<in> set (classes d) \<and>
        (\<forall>y \<in> set before. \<not> (tag_name y = Some n \<and> c \<in> set (classes y))))"
  unfolding find_class_def by (simp only: find_first_split) blast

lemma find_name_first:
  "find_name n t = Some d \<longleftrightarrow>
     (\<exists>before after. descendants t = before @ d # after \<and>
        tag_name d = Some n \<and> (\<forall>y \<in> set before. tag_name y \<noteq> Some n))"
  unfolding find_name_def by (simp only: find_first_split)

text \<open>\<open>find_all\<close> returns the tags on which the function is true, in document order.\<close>

lemma find_all_filter:
  "find_all f xs = Inr found \<Longrightarrow>
     found = filter (\<lambda>pd. tag_name (snd pd) \<noteq> None \<and> f (snd pd) = Inr True) xs"
proof (induction xs arbitrary: found)
  case Nil
  then show ?case by simp
next
  case (Cons pd xs)
  obtain parent d where pd: "pd = (parent, d)" by (cases pd)
  show ?case
  proof (cases d)
    case (Text s)
    then show ?thesis using Cons pd by simp
  next
    case (Element n cs as ks)
    then show ?thesis
      using Cons.prems Cons.IH pd
      by (auto split: sum.splits if_splits)
  qed
qed

text \<open>It returns when the function raises on no tag.\<close>

lemma find_all_total:
  "\<forall>pd \<in> set xs. tag_name (snd pd) \<noteq> None \<longrightarrow> (\<exists>b. f (snd pd) = Inr b)
     \<Longrightarrow> \<exists>found. find_all f xs = Inr found"
proof (induction xs)
  case Nil
  show ?case by simp
next
  case (Cons pd xs)
  then obtain found where rest: "find_all f xs = Inr found" by auto
  obtain parent d where pd: "pd = (parent, d)" by (cases pd)
  show ?case
  proof (cases d)
    case (Element n cs as ks)
    then obtain b where "f d = Inr b" using Cons.prems pd by auto
    then show ?thesis using Element rest pd by simp
  next
    case (Text s)
    then show ?thesis using rest pd by simp
  qed
qed

lemma find_all_none:
  assumes "\<forall>pd \<in> set xs. tag_name (snd pd) \<noteq> None \<longrightarrow> f (snd pd) = Inr False"
  shows "find_all f xs = Inr []"
proof -
  from assms obtain found where found: "find_all f xs = Inr found"
    using find_all_total [of xs f] by auto
  have "filter (\<lambda>pd. tag_name (snd pd) \<noteq> None \<and> f (snd pd) = Inr True) xs = []"
    using assms by (auto simp: filter_empty_conv)
  then show ?thesis using found find_all_filter [OF found] by simp
qed

section \<open>The Topic Resolver\<close>

text \<open>
  Claim C3: when the search response lists at least one result, \<open>get_wiki_page_id\<close>
  returns the \<open>pageid\<close> of the first entry of the list as the response gives it;
  the entries after the first play no part.
\<close>

theorem get_wiki_page_id_first_result:
  assumes "search w search_term = Inr response"
    and "getitem_key response ''query'' = Inr query"
    and "getitem_key query ''search'' = Inr (JList (first # others))"
    and "getitem_key first ''pageid'' = Inr page_id"
  shows "snd (get_wiki_page_id w search_term) = Inr page_id"
  using assms by (simp add: get_wiki_page_id_def)

theorem get_wiki_page_id_first_result_witness:
  "snd (get_wiki_page_id web_ok ''zebra'') = Inr (JInt 42)"
proof -
  have a: "search web_ok ''zebra'' = Inr response_two_results"
    by (simp add: web_ok_def)
  have b: "getitem_key response_two_results ''query'' =
      Inr (JDict [(''searchinfo'', JDict [(''totalhits'', JInt 2)]),
                  (''search'', JList
                     [JDict [(''title'', JString ''Zebra''), (''pageid'', JInt 42)],
                      JDict [(''title'', JString ''Aardvark''), (''pageid'', JInt 7)]])])"
    by (simp add: response_two_results_def)
  have c: "getitem_key
      (JDict [(''searchinfo'', JDict [(''totalhits'', JInt 2)]),
              (''search'', JList
                 [JDict [(''title'', JString ''Zebra''), (''pageid'', JInt 42)],
                  JDict [(''title'', JString ''Aardvark''), (''pageid'', JInt 7)]])])
      ''search'' =
      Inr (JList (JDict [(''title'', JString ''Zebra''), (''pageid'', JInt 42)] #
                  [JDict [(''title'', JString ''Aardvark''), (''pageid'', JInt 7)]]))"
    by simp
  have d: "getitem_key (JDict [(''title'', JString ''Zebra''), (''pageid'', JInt 42)])
      ''pageid'' = Inr (JInt 42)"
    by simp
  show ?thesis by (rule get_wiki_page_id_first_result [OF a b c d])
qed

text \<open>
  Claim C7, as stated: on a search response without result the resolver fails with
  \<open>NoResultsError\<close>. The script has no such exception: the subscript \<open>[0]\<close> of
  line 43 on the empty list raises \<open>IndexError\<close>.
\<close>

theorem get_wiki_page_id_no_results_counterexample:
  "snd (get_wiki_page_id web_empty_search ''zzz'') = Inl IndexError"
  by (simp add: get_wiki_page_id_def web_empty_search_def response_no_results_def)

text \<open>
  Claim C7, amended: on a search response without result the resolver fails with
  \<open>IndexError\<close>, and the run ends there: exit status 1, nothing printed, and the
  search request is the only request sent.
\<close>

theorem get_wiki_page_id_no_results:
  assumes "search w search_term = Inr response"
    and "getitem_key response ''query'' = Inr query"
    and "getitem_key query ''search'' = Inr (JList [])"
  shows "get_wiki_page_id w search_term = ([Search search_term], Inl IndexError) \<and>
         main w (script # search_term # extra) =
           \<lparr>exit_status = 1, stdout = [], requests = [Search search_term]\<rparr>"
  using assms by (simp add: get_wiki_page_id_def main_def)

theorem get_wiki_page_id_no_results_witness:
  "get_wiki_page_id web_empty_search ''zzz'' = ([Search ''zzz''], Inl IndexError) \<and>
   main web_empty_search [''scrape_image.py'', ''zzz''] =
     \<lparr>exit_status = 1, stdout = [], requests = [Search ''zzz'']\<rparr>"
proof -
  have a: "search web_empty_search ''zzz'' = Inr response_no_results"
    by (simp add: web_empty_search_def)
  have b: "getitem_key response_no_results ''query'' =
      Inr (JDict [(''searchinfo'', JDict [(''totalhits'', JInt 0)]), (''search'', JList [])])"
    by (simp add: response_no_results_def)
  have c: "getitem_key
      (JDict [(''searchinfo'', JDict [(''totalhits'', JInt 0)]), (''search'', JList [])])
      ''search'' = Inr (JList [])"
    by simp
  show ?thesis by (rule get_wiki_page_id_no_results [OF a b c])
qed

section \<open>The Primary Image Locator\<close>

text \<open>
  Claim C2: on a page without infobox table, or whose infobox table has no image
  cell, the locator returns the link around the first viewable image of the page.

  The second half holds (\<open>locate_primary_image_page_scan\<close> below). The first does
  not: on a page without infobox table \<open>infobox\<close> is \<open>None\<close>, line 68 calls
  \<open>find\<close> on it and raises \<open>AttributeError\<close>, and the scan of line 75 is never
  reached. The page below has a viewable image inside a link and no table.
\<close>

theorem locate_primary_image_no_infobox_raises:
  "find_class ''table'' ''infobox'' page_no_infobox = None \<and>
   find_all viewable_image (family page_no_infobox) =
     Inr [(Element ''a'' [] [(''href'', ''/wiki/File:Y.png'')]
             [Element ''img'' [] [(''src'', ''y.png''), (''alt'', ''y'')] []],
           Element ''img'' [] [(''src'', ''y.png''), (''alt'', ''y'')] [])] \<and>
   locate_primary_image page_no_infobox = Inl AttributeError"
  by (simp add: locate_primary_image_def page_no_infobox_def eval_find eval_viewable)

lemma locate_primary_image_without_infobox:
  "find_class ''table'' ''infobox'' page_content = None \<Longrightarrow>
     locate_primary_image page_content = Inl AttributeError"
  by (simp add: locate_primary_image_def)

text \<open>
  With an infobox table that has no image cell, the link is the \<open>href\<close> of the
  parent of the first tag, in document order, on which \<open>viewable_image\<close> is true,
  provided \<open>viewable_image\<close> raises on no tag of the page.
\<close>

lemma locate_primary_image_page_scan:
  assumes infobox: "find_class ''table'' ''infobox'' page_content = Some infobox"
    and cell: "find_class ''td'' ''infobox-image'' infobox = None"
    and split: "family page_content = before @ (parent, img) # after"
    and before: "\<forall>pd \<in> set before.
           tag_name (snd pd) \<noteq> None \<longrightarrow> viewable_image (snd pd) = Inr False"
    and img: "viewable_image img = Inr True"
    and after: "\<forall>pd \<in> set after.
           tag_name (snd pd) \<noteq> None \<longrightarrow> (\<exists>b. viewable_image (snd pd) = Inr b)"
    and href: "attrs parent ''href'' = Some target"
  shows "locate_primary_image page_content = Inr (PageScan, target)"
proof -
  have tag: "tag_name img \<noteq> None"
    using img by (auto simp: viewable_image_def split: if_splits)
  have "\<forall>pd \<in> set (family page_content).
      tag_name (snd pd) \<noteq> None \<longrightarrow> (\<exists>b. viewable_image (snd pd) = Inr b)"
    using before img after unfolding split by auto
  then obtain found where found: "find_all viewable_image (family page_content) = Inr found"
    using find_all_total by blast
  have "filter (\<lambda>pd. tag_name (snd pd) \<noteq> None \<and> viewable_image (snd pd) = Inr True) before = []"
    using before by (auto simp: filter_empty_conv)
  then have "found = (parent, img) #
      filter (\<lambda>pd. tag_name (snd pd) \<noteq> None \<and> viewable_image (snd pd) = Inr True) after"
    using find_all_filter [OF found] tag img unfolding split by simp
  then show ?thesis
    using infobox cell found href by (simp add: locate_primary_image_def getitem_def)
qed

lemma locate_primary_image_page_scan_example:
  "locate_primary_image page_infobox_no_cell = Inr (PageScan, ''/wiki/File:First.jpg'')"
  by (simp add: locate_primary_image_def page_infobox_no_cell_def eval_find eval_viewable)

text \<open>
  Claim C4, as stated: when neither the infobox nor the scan of the page yields an
  image, the locator fails with \<open>NoImageFoundError\<close> and not with an out-of-bounds
  error. The script has no such exception: the subscript \<open>[0]\<close> of line 75 on the
  empty list raises \<open>IndexError\<close>.
\<close>

theorem locate_primary_image_empty_scan_counterexample:
  "find_all viewable_image (family page_empty_infobox) = Inr [] \<and>
   locate_primary_image page_empty_infobox = Inl IndexError"
  by (simp add: locate_primary_image_def page_empty_infobox_def eval_find eval_viewable)

text \<open>
  Claim C4, amended: on a page whose infobox table has no image cell and on which
  \<open>viewable_image\<close> is false on every tag, the locator fails with the
  \<open>IndexError\<close> of the subscript \<open>[0]\<close> on the empty list.
\<close>

theorem locate_primary_image_empty_scan:
  assumes "find_class ''table'' ''infobox'' page_content = Some infobox"
    and "find_class ''td'' ''infobox-image'' infobox = None"
    and "\<forall>d \<in> set (descendants page_content).
           tag_name d \<noteq> None \<longrightarrow> viewable_image d = Inr False"
  shows "locate_primary_image page_content = Inl IndexError"
proof -
  have "find_all viewable_image (family page_content) = Inr []"
    using assms(3) by (intro find_all_none) (auto simp: descendants_def)
  then show ?thesis using assms(1,2) by (simp add: locate_primary_image_def)
qed

theorem locate_primary_image_empty_scan_witness:
  "locate_primary_image page_only_glyphs = Inl IndexError"
proof -
  have a: "find_class ''table'' ''infobox'' page_only_glyphs =
      Some (Element ''table'' [''infobox''] [] [])"
    by (simp add: page_only_glyphs_def eval_find)
  have b: "find_class ''td'' ''infobox-image'' (Element ''table'' [''infobox''] [] []) = None"
    by (simp add: eval_find)
  have c: "\<forall>d \<in> set (descendants page_only_glyphs).
      tag_name d \<noteq> None \<longrightarrow> viewable_image d = Inr False"
    by (simp add: page_only_glyphs_def descendants_def eval_viewable getitem_def)
  show ?thesis by (rule locate_primary_image_empty_scan [OF a b c])
qed

text \<open>
  Claim C6, as stated: on every page that contains an infobox table with an image
  cell that contains a link, the locator returns that link's target and does not
  scan the page. \<open>find\<close> returns the first match only: on the page below the first
  infobox table has no image cell, so the locator scans the page and returns the
  link around the first viewable image, although the second infobox table has an
  image cell with a link.
\<close>

theorem locate_primary_image_second_infobox_counterexample:
  "infobox_x \<in> set (descendants page_two_infoboxes) \<and>
   tag_name infobox_x = Some ''table'' \<and>
   ''infobox'' \<in> set (classes infobox_x) \<and>
   find_class ''td'' ''infobox-image'' infobox_x = Some cell_x \<and>
   find_name ''a'' cell_x = Some link_x \<and>
   attrs link_x ''href'' = Some ''/wiki/File:X.jpg'' \<and>
   locate_primary_image page_two_infoboxes = Inr (PageScan, ''/wiki/File:Y.png'')"
  by (simp add: locate_primary_image_def page_two_infoboxes_def infobox_x_def cell_x_def
      link_x_def eval_find eval_viewable)

text \<open>
  Claim C6, amended: when the first infobox table of the page, in document order,
  has an image cell, and the first link in the first such cell has a target, the
  locator returns that target as it is, from the infobox branch: the page is not
  scanned.
\<close>

theorem locate_primary_image_infobox:
  assumes "find_class ''table'' ''infobox'' page_content = Some infobox"
    and "find_class ''td'' ''infobox-image'' infobox = Some image_element"
    and "find_name ''a'' image_element = Some a"
    and "attrs a ''href'' = Some target"
  shows "locate_primary_image page_content = Inr (InfoboxCell, target)"
  using assms by (simp add: locate_primary_image_def getitem_def)

theorem locate_primary_image_infobox_witness:
  "locate_primary_image page_infobox = Inr (InfoboxCell, ''/wiki/File:X.jpg'')"
proof -
  have a: "find_class ''table'' ''infobox'' page_infobox = Some infobox_x"
    by (simp add: page_infobox_def infobox_x_def eval_find)
  have b: "find_class ''td'' ''infobox-image'' infobox_x = Some cell_x"
    by (simp add: infobox_x_def cell_x_def eval_find)
  have c: "find_name ''a'' cell_x = Some link_x"
    by (simp add: cell_x_def link_x_def eval_find)
  have d: "attrs link_x ''href'' = Some ''/wiki/File:X.jpg''"
    by (simp add: link_x_def)
  show ?thesis by (rule locate_primary_image_infobox [OF a b c d])
qed

section \<open>The Image URL Extractor\<close>

text \<open>
  Claim C5: the source string read from the image of the full-image container is
  returned as it is when it contains \<open>http\<close> somewhere, and with \<open>https:\<close> put in
  front when it does not; \<open>//upload.example/foo.png\<close> becomes
  \<open>https://upload.example/foo.png\<close>.
\<close>

theorem extract_final_url_normalises:
  assumes "find_class ''div'' ''fullImageLink'' image_page_content = Some image_parent"
    and "find_name ''a'' image_parent = Some a"
    and "find_name ''img'' a = Some img"
    and "attrs img ''src'' = Some src"
  shows "extract_final_url image_page_content =
           Inr (if sublist ''http'' src then src else ''https:'' @ src)"
  using assms by (simp add: extract_final_url_def getitem_def regex_http_def re_search_lits)

theorem extract_final_url_normalises_witness:
  "extract_final_url file_page = Inr ''https://upload.example/foo.png''"
proof -
  have a: "find_class ''div'' ''fullImageLink'' file_page =
      Some (Element ''div'' [''fullImageLink''] [(''id'', ''file'')]
          [Element ''a'' [] [(''href'', ''//upload.example/foo.png'')]
             [Element ''img'' []
                [(''src'', ''//upload.example/foo.png''), (''alt'', ''File:Foo.png'')] []]])"
    by (simp add: file_page_def eval_find)
  have b: "find_name ''a'' (Element ''div'' [''fullImageLink''] [(''id'', ''file'')]
          [Element ''a'' [] [(''href'', ''//upload.example/foo.png'')]
             [Element ''img'' []
                [(''src'', ''//upload.example/foo.png''), (''alt'', ''File:Foo.png'')] []]]) =
      Some (Element ''a'' [] [(''href'', ''//upload.example/foo.png'')]
             [Element ''img'' []
                [(''src'', ''//upload.example/foo.png''), (''alt'', ''File:Foo.png'')] []])"
    by (simp add: eval_find)
  have c: "find_name ''img'' (Element ''a'' [] [(''href'', ''//upload.example/foo.png'')]
             [Element ''img'' []
                [(''src'', ''//upload.example/foo.png''), (''alt'', ''File:Foo.png'')] []]) =
      Some (Element ''img'' []
                [(''src'', ''//upload.example/foo.png''), (''alt'', ''File:Foo.png'')] [])"
    by (simp add: eval_find)
  have d: "attrs (Element ''img'' []
                [(''src'', ''//upload.example/foo.png''), (''alt'', ''File:Foo.png'')] [])
      ''src'' = Some ''//upload.example/foo.png''"
    by simp
  have e: "\<not> sublist ''http'' ''//upload.example/foo.png''"
    by (simp add: sublist_Cons_right)
  show ?thesis
    using extract_final_url_normalises [OF a b c d] e by simp
qed

lemma extract_final_url_keeps_http:
  "extract_final_url
     (Element ''[document]'' [] []
        [Element ''div'' [''fullImageLink''] []
           [Element ''a'' [] []
              [Element ''img'' [] [(''src'', ''http://upload.example/foo.png'')] []]]]) =
   Inr ''http://upload.example/foo.png''"
  by (simp add: extract_final_url_def eval_find regex_http_def re_search_lits)

text \<open>
  Claim C8, as stated: when the full-image container or the image in it cannot be
  found, the extractor fails with \<open>NoFullImageError\<close>. The script has no such
  exception: without the container, line 84 calls \<open>find\<close> on \<open>None\<close> and raises
  \<open>AttributeError\<close>.
\<close>

theorem extract_final_url_no_container_counterexample:
  "find_class ''div'' ''fullImageLink'' file_page_no_container = None \<and>
   extract_final_url file_page_no_container = Inl AttributeError"
  by (simp add: extract_final_url_def file_page_no_container_def eval_find)

text \<open>
  Claim C8, amended: when the page has no full-image container, or the container
  has no image below it, the extractor fails, and with which exception is fixed by
  what is missing: \<open>AttributeError\<close> when there is no container, \<open>AttributeError\<close>
  when the container has no link below it, \<open>TypeError\<close> when it has a link (the
  first one then has no image below it).
\<close>

theorem extract_final_url_nothing_found:
  assumes "find_class ''div'' ''fullImageLink'' image_page_content = None \<or>
           (\<exists>image_parent.
              find_class ''div'' ''fullImageLink'' image_page_content = Some image_parent \<and>
              find_name ''img'' image_parent = None)"
  shows "extract_final_url image_page_content =
           (case find_class ''div'' ''fullImageLink'' image_page_content of
              None \<Rightarrow> Inl AttributeError
            | Some image_parent \<Rightarrow>
                (case find_name ''a'' image_parent of
                   None \<Rightarrow> Inl AttributeError
                 | Some a \<Rightarrow> Inl TypeError))"
proof (cases "find_class ''div'' ''fullImageLink'' image_page_content")
  case None
  then show ?thesis by (simp add: extract_final_url_def)
next
  case container: (Some image_parent)
  with assms have noimg: "find_name ''img'' image_parent = None" by simp
  show ?thesis
  proof (cases "find_name ''a'' image_parent")
    case None
    then show ?thesis using container by (simp add: extract_final_url_def)
  next
    case (Some a)
    then have "a \<in> set (descendants image_parent)" by (simp add: find_name_Some_in)
    then have "find_name ''img'' a = None" using noimg find_name_None_below by blast
    then show ?thesis using Some container by (simp add: extract_final_url_def)
  qed
qed

theorem extract_final_url_nothing_found_witness:
  "extract_final_url file_page_no_link = Inl AttributeError \<and>
   extract_final_url file_page_no_image = Inl TypeError"
proof -
  have a: "find_class ''div'' ''fullImageLink'' file_page_no_link =
      Some (Element ''div'' [''fullImageLink''] [] [Text ''foo''])"
    by (simp add: file_page_no_link_def eval_find)
  have b: "find_name ''img'' (Element ''div'' [''fullImageLink''] [] [Text ''foo'']) = None"
    by (simp add: eval_find)
  have c: "find_name ''a'' (Element ''div'' [''fullImageLink''] [] [Text ''foo'']) = None"
    by (simp add: eval_find)
  have no_link: "extract_final_url file_page_no_link = Inl AttributeError"
    using extract_final_url_nothing_found [of file_page_no_link] a b c by simp
  have d: "find_class ''div'' ''fullImageLink'' file_page_no_image =
      Some (Element ''div'' [''fullImageLink''] []
          [Element ''a'' [] [(''href'', ''//upload.example/foo.png'')] [Text ''foo'']])"
    by (simp add: file_page_no_image_def eval_find)
  have e: "find_name ''img'' (Element ''div'' [''fullImageLink''] []
          [Element ''a'' [] [(''href'', ''//upload.example/foo.png'')] [Text ''foo'']]) = None"
    by (simp add: eval_find)
  have f: "find_name ''a'' (Element ''div'' [''fullImageLink''] []
          [Element ''a'' [] [(''href'', ''//upload.example/foo.png'')] [Text ''foo'']]) =
      Some (Element ''a'' [] [(''href'', ''//upload.example/foo.png'')] [Text ''foo''])"
    by (simp add: eval_find)
  have no_image: "extract_final_url file_page_no_image = Inl TypeError"
    using extract_final_url_nothing_found [of file_page_no_image] d e f by simp
  show ?thesis using no_link no_image by simp
qed

section \<open>The run\<close>

text \<open>
  Claim C9: a run prints a URL only when all three stages succeed, and then exits
  with status 0; in every other run nothing is printed and the exit status is 1.
\<close>

theorem main_prints_only_on_success:
  "(\<exists>url. all_stages_succeed w argv url \<and>
           stdout (main w argv) = [url] \<and> exit_status (main w argv) = 0) \<or>
   ((\<forall>url. \<not> all_stages_succeed w argv url) \<and>
           stdout (main w argv) = [] \<and> exit_status (main w argv) = 1)"
  by (auto simp: main_def all_stages_succeed_def get_wiki_page_id_def get_wiki_image_url_def
      split: list.splits sum.splits prod.splits)

theorem main_prints_only_on_success_witness:
  "all_stages_succeed web_ok [''scrape_image.py'', ''zebra'']
     ''https://upload.example/foo.png'' \<and>
   exit_status (main web_ok [''scrape_image.py'', ''zebra'']) = 0 \<and>
   stdout (main web_ok [''scrape_image.py'', ''zebra'']) \<noteq> [] \<and>
   exit_status (main web_empty_search [''scrape_image.py'', ''zzz'']) = 1 \<and>
   stdout (main web_empty_search [''scrape_image.py'', ''zzz'']) = []"
proof -
  have page: "locate_primary_image page_infobox = Inr (InfoboxCell, ''/wiki/File:X.jpg'')"
    by (simp add: locate_primary_image_def page_infobox_def infobox_x_def cell_x_def
        link_x_def eval_find)
  have url: "extract_final_url file_page = Inr ''https://upload.example/foo.png''"
    by (simp add: extract_final_url_def file_page_def eval_find regex_http_def re_search_lits
        sublist_Cons_right)
  have id: "snd (get_wiki_page_id web_ok ''zebra'') = Inr (JInt 42)"
    by (simp add: get_wiki_page_id_def web_ok_def response_two_results_def)
  have ok: "all_stages_succeed web_ok [''scrape_image.py'', ''zebra'']
      ''https://upload.example/foo.png''"
    unfolding all_stages_succeed_def
    using page url id by (auto simp: web_ok_def)
  have "snd (get_wiki_page_id web_empty_search ''zzz'') = Inl IndexError"
    by (simp add: get_wiki_page_id_def web_empty_search_def response_no_results_def)
  then have ko: "\<forall>url. \<not> all_stages_succeed web_empty_search [''scrape_image.py'', ''zzz''] url"
    by (simp add: all_stages_succeed_def)
  show ?thesis
    using ok ko
      main_prints_only_on_success [of web_ok "[''scrape_image.py'', ''zebra'']"]
      main_prints_only_on_success [of web_empty_search "[''scrape_image.py'', ''zzz'']"]
    by auto
qed

text \<open>
  A failure ends the run where it happens: the requests of the later stages are
  not sent. Without argument, \<open>argv[1]\<close> fails before any request.
\<close>

lemma main_without_argument:
  "length argv < 2 \<Longrightarrow> main w argv = \<lparr>exit_status = 1, stdout = [], requests = []\<rparr>"
  by (cases argv; cases "tl argv") (simp_all add: main_def)

lemma main_stops_at_resolver:
  "snd (get_wiki_page_id w search_term) = Inl e \<Longrightarrow>
     main w (script # search_term # extra) =
       \<lparr>exit_status = 1, stdout = [], requests = [Search search_term]\<rparr>"
  by (auto simp: main_def get_wiki_page_id_def split: sum.splits)

lemma main_stops_at_article:
  "snd (get_wiki_page_id w search_term) = Inr page_id \<Longrightarrow>
   article w page_id = Inl e \<or>
     (\<exists>page_content. article w page_id = Inr page_content \<and>
        locate_primary_image page_content = Inl e) \<Longrightarrow>
     main w (script # search_term # extra) =
       \<lparr>exit_status = 1, stdout = [], requests = [Search search_term, Article page_id]\<rparr>"
  by (auto simp: main_def get_wiki_page_id_def get_wiki_image_url_def split: sum.splits)

lemma main_stops_at_image_page:
  "snd (get_wiki_page_id w search_term) = Inr page_id \<Longrightarrow>
   article w page_id = Inr page_content \<Longrightarrow>
   locate_primary_image page_content = Inr (taken, image_url) \<Longrightarrow>
   image_page w image_url = Inl e \<or>
     (\<exists>image_page_content. image_page w image_url = Inr image_page_content \<and>
        extract_final_url image_page_content = Inl e) \<Longrightarrow>
     main w (script # search_term # extra) =
       \<lparr>exit_status = 1, stdout = [],
        requests = [Search search_term, Article page_id, ImagePage image_url]\<rparr>"
  by (auto simp: main_def get_wiki_page_id_def get_wiki_image_url_def split: sum.splits)

end
